theory Spec2Isabelle
  imports Main
begin


section \<open>Python values used by the service\<close>

subsection \<open>List slicing\<close>

text \<open>
  \<^verbatim>\<open>xs[i:]\<close> for an integer start index: a negative index counts from the end and is
  clipped at the front of the list, a non-negative one is clipped at its end. In
  particular \<^verbatim>\<open>xs[-0:]\<close> is \<^verbatim>\<open>xs[0:]\<close>, the whole list.
\<close>

definition slice_from :: "int \<Rightarrow> 'a list \<Rightarrow> 'a list" where
  "slice_from i xs =
     (if i < 0 then drop (nat (max 0 (int (length xs) + i))) xs
      else drop (nat i) xs)"

subsection \<open>Strings\<close>

text \<open>
  The text that the child writes, the lines of the log file and the entries of the log
  buffer are Python strings: sequences of Unicode code points. The service's own
  messages are the ASCII literals of the source.
\<close>

type_synonym ustring = "nat list"

definition ustr :: "string \<Rightarrow> ustring" where
  "ustr s = map of_char s"

text \<open>
  \<^verbatim>\<open>str.strip()\<close> removes leading and trailing whitespace, which for a Python string is
  the set of \<^verbatim>\<open>str.isspace\<close>: the controls U+0009 to U+000D and U+001C to U+001F, the
  space, U+0085, U+00A0, U+1680, U+2000 to U+200A, U+2028, U+2029, U+202F, U+205F and
  U+3000.
\<close>

definition is_space :: "nat \<Rightarrow> bool" where
  "is_space c =
     (c \<in> set [0x09, 0x0A, 0x0B, 0x0C, 0x0D, 0x1C, 0x1D, 0x1E, 0x1F, 0x20, 0x85, 0xA0,
               0x1680, 0x2000, 0x2001, 0x2002, 0x2003, 0x2004, 0x2005, 0x2006, 0x2007,
               0x2008, 0x2009, 0x200A, 0x2028, 0x2029, 0x202F, 0x205F, 0x3000])"

definition strip :: "ustring \<Rightarrow> ustring" where
  "strip s = rev (dropWhile is_space (rev (dropWhile is_space s)))"

subsection \<open>Timestamps\<close>

text \<open>
  The value of \<^verbatim>\<open>datetime.datetime.now()\<close> and its rendering by
  \<^verbatim>\<open>strftime('%Y-%m-%d %H:%M:%S')\<close>: every field is a zero-padded decimal number of
  fixed width (four digits for the year of a wall-clock time, two for the others).
\<close>

record datetime =
  year :: nat
  month :: nat
  day :: nat
  hour :: nat
  minute :: nat
  second :: nat

definition digit :: "nat \<Rightarrow> nat" where
  "digit n = 48 + n mod 10"

definition pad2 :: "nat \<Rightarrow> ustring" where
  "pad2 n = [digit (n div 10), digit n]"

definition pad4 :: "nat \<Rightarrow> ustring" where
  "pad4 n = [digit (n div 1000), digit (n div 100), digit (n div 10), digit n]"

definition strftime :: "datetime \<Rightarrow> ustring" where
  "strftime d = pad4 (year d) @ ustr ''-'' @ pad2 (month d) @ ustr ''-'' @ pad2 (day d) @
                ustr '' '' @
                pad2 (hour d) @ ustr '':'' @ pad2 (minute d) @ ustr '':'' @ pad2 (second d)"

text \<open>The shape \<^verbatim>\<open>YYYY-MM-DD HH:MM:SS\<close>: a \<^verbatim>\<open>d\<close> of the mask stands for any digit.\<close>

definition is_digit :: "nat \<Rightarrow> bool" where
  "is_digit c = (48 \<le> c \<and> c \<le> 57)"

definition timestamp_mask :: string where
  "timestamp_mask = ''dddd-dd-dd dd:dd:dd''"

definition is_timestamp :: "ustring \<Rightarrow> bool" where
  "is_timestamp t =
     list_all2 (\<lambda>m c. if m = CHR ''d'' then is_digit c else c = of_char m) timestamp_mask t"

subsection \<open>JSON responses and HTTP errors\<close>

datatype jvalue = JStr string | JBool bool | JInt int | JList "ustring list"

text \<open>A response body is the dictionary the handler returns, keys in source order.\<close>

type_synonym response = "(string \<times> jvalue) list"

datatype http_error = HTTPException int string

type_synonym result = "http_error + response"

section \<open>The global mission state\<close>

text \<open>
  The worker thread executes \<^verbatim>\<open>run_mission_background\<close>; its program counter names
  the statement it executes next (the line of \<^verbatim>\<open>main.py\<close> is given with each step
  below). The local variable \<^verbatim>\<open>line\<close> travels with the counter.
\<close>

datatype wpc =
    W_entry | W_mkdir | W_exists | W_chmod | W_popen | W_set_running
  | W_readline | W_check_stop ustring | W_terminate | W_append ustring | W_trim
  | W_wait | W_except | W_finally1 | W_finally2 | W_finally3

text \<open>
  A \<^verbatim>\<open>threading.Thread\<close> object: created but never started, running at some
  statement, or finished. Only a running thread is alive.
\<close>

datatype thread = Unstarted | At wpc | Finished

text \<open>
  The event loop runs one request handler at a time. It is idle, holds the result of
  the handler that returned last, is inside \<^verbatim>\<open>stop_mission\<close> (the \<^verbatim>\<open>S_\<close> counters),
  is inside the shutdown part of \<^verbatim>\<open>lifespan\<close> (the \<^verbatim>\<open>L_\<close> counters), or has left it:
  normally, or by an exception nothing catches.
\<close>

datatype hpc =
    H_idle | H_returned result
  | S_set_flag | S_check_proc | S_terminate | S_wait5 | S_kill | S_wait
  | S_check_thread | S_join | S_set_running | S_except1 string | S_except2 string
  | L_set_flag | L_check_proc | L_terminate | L_join | L_set_running
  | H_exited | H_crashed string

text \<open>
  The calls on the worker thread and on the child process, recorded in the order they
  are made.
\<close>

datatype effect = ThreadStart | Popen nat | Terminate nat | Kill nat | Wait nat | Join

text \<open>
  The module globals \<^verbatim>\<open>mission_thread\<close>, \<^verbatim>\<open>stop_mission_flag\<close>, \<^verbatim>\<open>current_process\<close>,
  \<^verbatim>\<open>is_running\<close> and \<^verbatim>\<open>logs\<close> (lines 32 to 36), the handler of the event loop, and the
  record of outside calls. A process handle is the process's number.

  The global \<^verbatim>\<open>logs\<close> is a reference to a list object: line 86 appends to the object
  in place, line 91 binds the global to a new list, and line 272 can hand the object
  itself to a response. The list objects live in a store, \<open>logs_ref\<close> is the address the
  global holds and \<open>next_ref\<close> the next unused address.
\<close>

record sys =
  mission_thread :: "thread option"
  stop_mission_flag :: bool
  current_process :: "nat option"
  is_running :: bool
  logs_ref :: nat
  heap :: "nat \<Rightarrow> ustring list"
  next_ref :: nat
  handler :: hpc
  effects :: "effect list"

definition init :: sys where
  "init = \<lparr>mission_thread = None, stop_mission_flag = False, current_process = None,
           is_running = False, logs_ref = 0, heap = (\<lambda>a. []), next_ref = 1,
           handler = H_idle, effects = []\<rparr>"

text \<open>The list the global \<^verbatim>\<open>logs\<close> is bound to.\<close>

definition logs :: "sys \<Rightarrow> ustring list" where
  "logs s = heap s (logs_ref s)"

text \<open>\<^verbatim>\<open>mission_thread and mission_thread.is_alive()\<close>\<close>

definition thread_alive :: "sys \<Rightarrow> bool" where
  "thread_alive s = (case mission_thread s of Some (At _) \<Rightarrow> True | _ \<Rightarrow> False)"

text \<open>
  What the outside world answers to the statement executed in a step: whether the call
  raises (with the text of the exception), whether a wait ran into its timeout, whether
  the launch script exists, the number of the spawned process, the line that
  \<^verbatim>\<open>readline\<close> returns (empty at end of file) and the time of the clock.
\<close>

record env =
  raises :: "string option"
  timed_out :: bool
  script_exists :: bool
  pid :: nat
  line :: ustring
  now :: datetime

section \<open>The mission loop\<close>

definition goto :: "wpc \<Rightarrow> sys \<Rightarrow> sys" where
  "goto pc s = s\<lparr>mission_thread := Some (At pc)\<rparr>"

text \<open>Line 85: the entry for a line, the capture time first.\<close>

definition log_entry :: "datetime \<Rightarrow> ustring \<Rightarrow> ustring" where
  "log_entry t l = strftime t @ ustr '' - '' @ strip l"

text \<open>Lines 90 and 91 as a function of the list: keep only the last 1000 entries.\<close>

definition trim_logs :: "ustring list \<Rightarrow> ustring list" where
  "trim_logs ls = (if length ls > 1000 then slice_from (- 1000) ls else ls)"

text \<open>
  One statement of \<^verbatim>\<open>run_mission_background\<close> (lines 38 to 102). Every exception
  raised inside the \<^verbatim>\<open>try\<close> goes to the \<^verbatim>\<open>except Exception\<close> clause, and every way out
  of the \<^verbatim>\<open>try\<close> goes through the \<^verbatim>\<open>finally\<close> clause.
\<close>

fun wstep :: "env \<Rightarrow> wpc \<Rightarrow> sys \<Rightarrow> sys" where
  \<comment> \<open>line 42: stopped before execution, return\<close>
  "wstep e W_entry s = (if stop_mission_flag s then goto W_finally1 s else goto W_mkdir s)"
  \<comment> \<open>line 50: create the mission directory\<close>
| "wstep e W_mkdir s = (case raises e of Some m \<Rightarrow> goto W_except s | None \<Rightarrow> goto W_exists s)"
  \<comment> \<open>lines 54, 55: a missing launch script raises FileNotFoundError\<close>
| "wstep e W_exists s =
     (case raises e of Some m \<Rightarrow> goto W_except s
      | None \<Rightarrow> if script_exists e then goto W_chmod s else goto W_except s)"
  \<comment> \<open>line 58: make the script executable\<close>
| "wstep e W_chmod s = (case raises e of Some m \<Rightarrow> goto W_except s | None \<Rightarrow> goto W_popen s)"
  \<comment> \<open>line 64: spawn the child and record its handle\<close>
| "wstep e W_popen s =
     (case raises e of Some m \<Rightarrow> goto W_except s
      | None \<Rightarrow> goto W_set_running
                 (s\<lparr>current_process := Some (pid e), effects := effects s @ [Popen (pid e)]\<rparr>))"
  \<comment> \<open>line 74\<close>
| "wstep e W_set_running s = goto W_readline (s\<lparr>is_running := True\<rparr>)"
  \<comment> \<open>line 78: the next line of the child's output; the empty string ends the loop\<close>
| "wstep e W_readline s =
     (case raises e of Some m \<Rightarrow> goto W_except s
      | None \<Rightarrow> if line e = [] then goto W_wait s else goto (W_check_stop (line e)) s)"
  \<comment> \<open>line 79\<close>
| "wstep e (W_check_stop l) s =
     (if stop_mission_flag s then goto W_terminate s else goto (W_append l) s)"
  \<comment> \<open>lines 81, 82: terminate the child and break\<close>
| "wstep e W_terminate s =
     (case current_process s of None \<Rightarrow> goto W_except s
      | Some p \<Rightarrow>
          (case raises e of Some m \<Rightarrow> goto W_except s
           | None \<Rightarrow> goto W_wait (s\<lparr>effects := effects s @ [Terminate p]\<rparr>)))"
  \<comment> \<open>lines 84 to 86: a line that is not blank is appended to the list object, with the time\<close>
| "wstep e (W_append l) s =
     (if strip l \<noteq> []
      then goto W_trim (s\<lparr>heap := (heap s)(logs_ref s := logs s @ [log_entry (now e) l])\<rparr>)
      else goto W_readline s)"
  \<comment> \<open>lines 90, 91: beyond 1000 entries the global is bound to a new list, the last 1000\<close>
| "wstep e W_trim s =
     (if length (logs s) > 1000
      then goto W_readline
             (s\<lparr>heap := (heap s)(next_ref s := slice_from (- 1000) (logs s)),
                logs_ref := next_ref s, next_ref := Suc (next_ref s)\<rparr>)
      else goto W_readline s)"
  \<comment> \<open>line 93: wait for the child to exit\<close>
| "wstep e W_wait s =
     (case current_process s of None \<Rightarrow> goto W_except s
      | Some p \<Rightarrow>
          (case raises e of Some m \<Rightarrow> goto W_except s
           | None \<Rightarrow> goto W_finally1 (s\<lparr>effects := effects s @ [Wait p]\<rparr>)))"
  \<comment> \<open>lines 96, 97: the failure is logged\<close>
| "wstep e W_except s = goto W_finally1 s"
  \<comment> \<open>line 99\<close>
| "wstep e W_finally1 s = goto W_finally2 (s\<lparr>is_running := False\<rparr>)"
  \<comment> \<open>line 100\<close>
| "wstep e W_finally2 s = goto W_finally3 (s\<lparr>current_process := None\<rparr>)"
  \<comment> \<open>lines 101, 102: the thread function returns\<close>
| "wstep e W_finally3 s = s\<lparr>stop_mission_flag := False, mission_thread := Some Finished\<rparr>"

text \<open>The worker makes a step only while its thread is running.\<close>

definition worker_step :: "env \<Rightarrow> sys \<Rightarrow> sys" where
  "worker_step e s = (case mission_thread s of Some (At pc) \<Rightarrow> wstep e pc s | _ \<Rightarrow> s)"

definition worker_steps :: "env list \<Rightarrow> sys \<Rightarrow> sys" where
  "worker_steps es s = foldl (\<lambda>s e. worker_step e s) s es"

section \<open>The request handlers\<close>

definition enter :: "hpc \<Rightarrow> sys \<Rightarrow> sys" where
  "enter pc s = s\<lparr>handler := pc\<rparr>"

text \<open>A new request is served only when no handler is running.\<close>

definition event_loop_free :: "sys \<Rightarrow> bool" where
  "event_loop_free s = (case handler s of H_idle \<Rightarrow> True | H_returned r \<Rightarrow> True | _ \<Rightarrow> False)"

subsection \<open>\<^verbatim>\<open>start_mission\<close> (lines 138 to 165)\<close>

definition start_response :: response where
  "start_response =
     [(''status'', JStr ''success''), (''message'', JStr ''WildWings mission started'')]"

text \<open>
  The handler does not block and no worker is alive after its check, so it is one step.
  The environment says whether \<^verbatim>\<open>mission_thread.start()\<close> raises; the new thread object
  is assigned to the global before it is started.
\<close>

definition start_mission :: "env \<Rightarrow> sys \<Rightarrow> result \<times> sys" where
  "start_mission e s =
     (if thread_alive s then (Inl (HTTPException 400 ''Mission already running''), s)
      else
        let s1 = s\<lparr>stop_mission_flag := False\<rparr>;
            s2 = s1\<lparr>mission_thread := Some Unstarted\<rparr>
        in case raises e of
             Some m \<Rightarrow> (Inl (HTTPException 500 (''Failed to start mission: '' @ m)), s2)
           | None \<Rightarrow>
               (Inr start_response,
                s2\<lparr>mission_thread := Some (At W_entry),
                   effects := effects s2 @ [ThreadStart]\<rparr>))"

subsection \<open>\<^verbatim>\<open>stop_mission\<close> (lines 168 to 227)\<close>

definition no_mission_response :: response where
  "no_mission_response =
     [(''status'', JStr ''success''), (''message'', JStr ''No mission currently running''),
      (''was_running'', JBool False)]"

definition stopped_response :: response where
  "stopped_response =
     [(''status'', JStr ''success''), (''message'', JStr ''Mission stopped successfully''),
      (''was_running'', JBool True)]"

definition stop_error_response :: "string \<Rightarrow> response" where
  "stop_error_response m =
     [(''status'', JStr ''error''), (''message'', JStr (''Error stopping mission: '' @ m)),
      (''was_running'', JBool True)]"

text \<open>The text of the AttributeError of a method call on \<^verbatim>\<open>None\<close>.\<close>

definition attribute_error :: "string \<Rightarrow> string" where
  "attribute_error a =
     [CHR 0x27] @ ''NoneType'' @ [CHR 0x27] @ '' object has no attribute '' @
     [CHR 0x27] @ a @ [CHR 0x27]"

text \<open>Line 174: with no worker alive the handler returns at once.\<close>

definition stop_mission_entry :: "sys \<Rightarrow> sys" where
  "stop_mission_entry s =
     (if \<not> thread_alive s then enter (H_returned (Inr no_mission_response)) s
      else enter S_set_flag s)"

text \<open>
  The statements after the check. The worker runs while the handler waits, so every
  statement that reads a global reads it anew, as the source does: \<^verbatim>\<open>current_process\<close>
  may have become \<^verbatim>\<open>None\<close> since line 188.
\<close>

fun sstep :: "env \<Rightarrow> hpc \<Rightarrow> sys \<Rightarrow> sys" where
  \<comment> \<open>line 184\<close>
  "sstep e S_set_flag s = enter S_check_proc (s\<lparr>stop_mission_flag := True\<rparr>)"
  \<comment> \<open>line 188\<close>
| "sstep e S_check_proc s =
     (if current_process s \<noteq> None then enter S_terminate s else enter S_check_thread s)"
  \<comment> \<open>line 190\<close>
| "sstep e S_terminate s =
     (case current_process s of None \<Rightarrow> enter (S_except1 (attribute_error ''terminate'')) s
      | Some p \<Rightarrow>
          (case raises e of Some m \<Rightarrow> enter (S_except1 m) s
           | None \<Rightarrow> enter S_wait5 (s\<lparr>effects := effects s @ [Terminate p]\<rparr>)))"
  \<comment> \<open>lines 194 to 197: wait up to 5 seconds; TimeoutExpired leads to the kill\<close>
| "sstep e S_wait5 s =
     (case current_process s of None \<Rightarrow> enter (S_except1 (attribute_error ''wait'')) s
      | Some p \<Rightarrow>
          (case raises e of Some m \<Rightarrow> enter (S_except1 m) s
           | None \<Rightarrow> if timed_out e then enter S_kill s
                     else enter S_check_thread (s\<lparr>effects := effects s @ [Wait p]\<rparr>)))"
  \<comment> \<open>line 198\<close>
| "sstep e S_kill s =
     (case current_process s of None \<Rightarrow> enter (S_except1 (attribute_error ''kill'')) s
      | Some p \<Rightarrow>
          (case raises e of Some m \<Rightarrow> enter (S_except1 m) s
           | None \<Rightarrow> enter S_wait (s\<lparr>effects := effects s @ [Kill p]\<rparr>)))"
  \<comment> \<open>line 199\<close>
| "sstep e S_wait s =
     (case current_process s of None \<Rightarrow> enter (S_except1 (attribute_error ''wait'')) s
      | Some p \<Rightarrow>
          (case raises e of Some m \<Rightarrow> enter (S_except1 m) s
           | None \<Rightarrow> enter S_check_thread (s\<lparr>effects := effects s @ [Wait p]\<rparr>)))"
  \<comment> \<open>line 202\<close>
| "sstep e S_check_thread s = (if thread_alive s then enter S_join s else enter S_set_running s)"
  \<comment> \<open>lines 204 to 206: join for up to 10 seconds, then go on in either case\<close>
| "sstep e S_join s = enter S_set_running (s\<lparr>effects := effects s @ [Join]\<rparr>)"
  \<comment> \<open>lines 209 to 216\<close>
| "sstep e S_set_running s = enter (H_returned (Inr stopped_response)) (s\<lparr>is_running := False\<rparr>)"
  \<comment> \<open>line 221\<close>
| "sstep e (S_except1 m) s = enter (S_except2 m) (s\<lparr>is_running := False\<rparr>)"
  \<comment> \<open>lines 222 to 227\<close>
| "sstep e (S_except2 m) s =
     enter (H_returned (Inr (stop_error_response m))) (s\<lparr>stop_mission_flag := True\<rparr>)"
| "sstep e pc s = s"

subsection \<open>Shutdown in \<^verbatim>\<open>lifespan\<close> (lines 109 to 116)\<close>

definition shutdown_entry :: "sys \<Rightarrow> sys" where
  "shutdown_entry s = (if thread_alive s then enter L_set_flag s else enter H_exited s)"

fun lstep :: "env \<Rightarrow> hpc \<Rightarrow> sys \<Rightarrow> sys" where
  \<comment> \<open>line 112\<close>
  "lstep e L_set_flag s = enter L_check_proc (s\<lparr>stop_mission_flag := True\<rparr>)"
  \<comment> \<open>line 113\<close>
| "lstep e L_check_proc s =
     (if current_process s \<noteq> None then enter L_terminate s else enter L_join s)"
  \<comment> \<open>line 114: no handler catches what is raised here\<close>
| "lstep e L_terminate s =
     (case current_process s of None \<Rightarrow> enter (H_crashed (attribute_error ''terminate'')) s
      | Some p \<Rightarrow>
          (case raises e of Some m \<Rightarrow> enter (H_crashed m) s
           | None \<Rightarrow> enter L_join (s\<lparr>effects := effects s @ [Terminate p]\<rparr>)))"
  \<comment> \<open>line 115\<close>
| "lstep e L_join s = enter L_set_running (s\<lparr>effects := effects s @ [Join]\<rparr>)"
  \<comment> \<open>line 116\<close>
| "lstep e L_set_running s = enter H_exited (s\<lparr>is_running := False\<rparr>)"
| "lstep e pc s = s"

subsection \<open>\<^verbatim>\<open>mission_status\<close> (lines 229 to 249)\<close>

text \<open>
  The handler makes no call between its reads and its return, so it is evaluated on one
  snapshot of the globals.
\<close>

definition mission_status :: "sys \<Rightarrow> response \<times> sys" where
  "mission_status s =
     (let status = (if thread_alive s
                    then (if stop_mission_flag s then ''stopping'' else ''running'')
                    else ''idle'');
          recent_logs = (if length (logs s) > 10 then slice_from (- 10) (logs s) else logs s)
      in ([(''status'', JStr status),
           (''thread_alive'', JBool (thread_alive s)),
           (''stop_requested'', JBool (stop_mission_flag s)),
           (''is_running'', JBool (is_running s)),
           (''total_logs'', JInt (int (length (logs s)))),
           (''recent_logs'', JList recent_logs)], s))"

subsection \<open>\<^verbatim>\<open>get_logs\<close> (lines 251 to 288)\<close>

text \<open>
  The log file as the handler finds it: missing, failing to open or to read (with the
  text of the exception), or the list of lines that \<^verbatim>\<open>readlines\<close> returns.
\<close>

datatype log_file = Missing | Unreadable string | Content "ustring list"

text \<open>The query parameter \<^verbatim>\<open>lines: int = 100\<close>.\<close>

definition lines_param :: "int option \<Rightarrow> int" where
  "lines_param q = (case q of None \<Rightarrow> 100 | Some n \<Rightarrow> n)"

text \<open>
  The handler reads the globals at line 262, at line 287 or at line 272, in the state it
  is called in. On the last path it then logs (line 274), and the worker runs meanwhile:
  \<open>ws\<close> are the steps it makes before the handler builds its response, which reads
  \<^verbatim>\<open>len(logs)\<close> again. A slice is a new list; with \<^verbatim>\<open>len(logs) > lines\<close> false, line 272
  binds \<^verbatim>\<open>runtime_logs\<close> to the list object of the buffer itself, and the response holds
  what that object holds when the handler returns. The handler changes no global: the
  state it returns in is the one the worker has reached.
\<close>

definition get_logs :: "int option \<Rightarrow> log_file \<Rightarrow> env list \<Rightarrow> sys \<Rightarrow> response \<times> sys" where
  "get_logs q f ws s =
     (let lines = lines_param q in
      case f of
        Missing \<Rightarrow>
          ([(''logs'', JList [ustr ''Log file not found'']), (''total_lines'', JInt 0),
            (''runtime_logs'', JList (slice_from (- lines) (logs s)))], s)
      | Unreadable m \<Rightarrow>
          ([(''logs'', JList [ustr (''Error reading logs: '' @ m)]), (''total_lines'', JInt 0),
            (''runtime_logs'', JList (if logs s \<noteq> [] then slice_from (- lines) (logs s) else []))],
           s)
      | Content all_lines \<Rightarrow>
          (let recent_lines = (if int (length all_lines) > lines
                               then slice_from (- lines) all_lines else all_lines);
               file_logs = map strip (filter (\<lambda>l. strip l \<noteq> []) recent_lines);
               s' = worker_steps ws s;
               runtime_logs = (if int (length (logs s)) > lines
                               then slice_from (- lines) (logs s) else heap s' (logs_ref s))
           in ([(''logs'', JList file_logs),
                (''total_lines'', JInt (int (length all_lines))),
                (''runtime_logs'', JList runtime_logs),
                (''total_runtime_logs'', JInt (int (length (logs s'))))], s')))"

section \<open>Executions of the service\<close>

text \<open>
  The worker thread and the event loop run concurrently: an execution interleaves steps
  of the worker with steps of the event loop, which starts a handler when it is free and
  otherwise continues the one it is in. A handler gives way to the worker where it
  calls out (logging, waiting, joining); \<^verbatim>\<open>stop_mission\<close> does so at every statement.
\<close>

datatype action = Worker env | Start env | Stop env | Shutdown env

fun exec_action :: "action \<Rightarrow> sys \<Rightarrow> sys" where
  "exec_action (Worker e) s = worker_step e s"
| "exec_action (Start e) s =
     (if event_loop_free s
      then (case start_mission e s of (r, s') \<Rightarrow> enter (H_returned r) s')
      else s)"
| "exec_action (Stop e) s =
     (if event_loop_free s then stop_mission_entry s else sstep e (handler s) s)"
| "exec_action (Shutdown e) s =
     (if event_loop_free s then shutdown_entry s else lstep e (handler s) s)"

definition exec :: "action list \<Rightarrow> sys \<Rightarrow> sys" where
  "exec as s = foldl (\<lambda>s a. exec_action a s) s as"

section \<open>Reading responses, and inputs for the examples\<close>

text \<open>The list stored under a key of a response (empty when the key is absent).\<close>

definition entries :: "response \<Rightarrow> string \<Rightarrow> ustring list" where
  "entries r k = (case map_of r k of Some (JList xs) \<Rightarrow> xs | _ \<Rightarrow> [])"

definition noon :: datetime where
  "noon = \<lparr>year = 2024, month = 5, day = 17, hour = 12, minute = 0, second = 9\<rparr>"

text \<open>An environment in which nothing fails, and one in which the call at hand raises.\<close>

definition env_ok :: env where
  "env_ok = \<lparr>raises = None, timed_out = False, script_exists = True, pid = 4711,
             line = ustr ''frame 1 captured'', now = noon\<rparr>"

definition thread_error :: string where
  "thread_error = ''can'' @ [CHR 0x27] @ ''t start new thread''"

definition env_no_thread :: env where
  "env_no_thread = env_ok\<lparr>raises := Some thread_error\<rparr>"




definition env_second :: env where
  "env_second = env_ok\<lparr>line := ustr ''frame 2 captured''\<rparr>"

definition env_padded :: env where
  "env_padded = env_ok\<lparr>line := [0x20, 0xA0] @ ustr ''frame 1 captured'' @ [0x0A]\<rparr>"

definition env_blank :: env where
  "env_blank = env_ok\<lparr>line := [0xA0, 0x0A]\<rparr>"

text \<open>A buffer of seven entries, and a log file of three lines, the second one blank.\<close>

definition seven_logs :: sys where
  "seven_logs =
     init\<lparr>heap := (heap init)(0 := map ustr [''a'', ''b'', ''c'', ''d'', ''e'', ''f'', ''g''])\<rparr>"

definition three_lines :: "ustring list" where
  "three_lines = [ustr ''k'' @ [0x0A], [0xA0, 0x0A], ustr ''m'' @ [0x0A]]"

section \<open>Schedules and states of the examples\<close>

text \<open>
  A mission is started and the worker runs up to the spawn of the child (line 64), not
  yet to line 74.
\<close>

definition spawn_schedule :: "action list" where
  "spawn_schedule = [Start env_ok, Worker env_ok, Worker env_ok, Worker env_ok,
                     Worker env_ok, Worker env_ok]"


text \<open>
  The worker in the streaming loop: about to read, holding a line it has just read (the
  plain one, the padded one, the blank one), and the first of these after
  \<^verbatim>\<open>stop_mission\<close> has set the stop flag and then has found the process handle.
\<close>

definition reading :: sys where
  "reading = exec (spawn_schedule @ [Worker env_ok]) init"

definition examining :: sys where
  "examining = exec [Worker env_ok] reading"

definition examining_padded :: sys where
  "examining_padded = exec [Worker env_padded] reading"

definition examining_blank :: sys where
  "examining_blank = exec [Worker env_blank] reading"

definition stop_requested :: sys where
  "stop_requested = exec [Stop env_ok, Stop env_ok] examining"




text \<open>
  The four worker steps that take one line through the loop when no stop is requested
  and the line is not blank: read it, check the flag, append it, trim the buffer.
\<close>

definition feed :: "env \<Rightarrow> action list" where
  "feed e = [Worker e, Worker e, Worker e, Worker e]"

text \<open>The steps of the worker that take two lines through the loop.\<close>

definition two_lines :: "env list" where
  "two_lines = [env_ok, env_ok, env_ok, env_ok, env_second, env_second, env_second, env_second]"

section \<open>Invariants and measures\<close>

text \<open>
  What holds of \<^verbatim>\<open>current_process\<close> and \<^verbatim>\<open>is_running\<close> at each statement of the
  worker, whatever the handlers do in between: they only ever clear \<^verbatim>\<open>is_running\<close>.
\<close>

fun worker_inv :: "wpc \<Rightarrow> sys \<Rightarrow> bool" where
  "worker_inv W_entry s = (current_process s = None \<and> \<not> is_running s)"
| "worker_inv W_mkdir s = (current_process s = None \<and> \<not> is_running s)"
| "worker_inv W_exists s = (current_process s = None \<and> \<not> is_running s)"
| "worker_inv W_chmod s = (current_process s = None \<and> \<not> is_running s)"
| "worker_inv W_popen s = (current_process s = None \<and> \<not> is_running s)"
| "worker_inv W_set_running s = (current_process s \<noteq> None \<and> \<not> is_running s)"
| "worker_inv W_readline s = (current_process s \<noteq> None)"
| "worker_inv (W_check_stop l) s = (current_process s \<noteq> None)"
| "worker_inv W_terminate s = (current_process s \<noteq> None)"
| "worker_inv (W_append l) s = (current_process s \<noteq> None)"
| "worker_inv W_trim s = (current_process s \<noteq> None)"
| "worker_inv W_wait s = (current_process s \<noteq> None)"
| "worker_inv W_except s = (is_running s \<longrightarrow> current_process s \<noteq> None)"
| "worker_inv W_finally1 s = (is_running s \<longrightarrow> current_process s \<noteq> None)"
| "worker_inv W_finally2 s = (\<not> is_running s)"
| "worker_inv W_finally3 s = (current_process s = None \<and> \<not> is_running s)"

definition consistent :: "sys \<Rightarrow> bool" where
  "consistent s =
     (case mission_thread s of
        Some (At pc) \<Rightarrow> worker_inv pc s
      | _ \<Rightarrow> current_process s = None \<and> \<not> is_running s)"

text \<open>The buffer holds at most 1000 entries, and one more between line 86 and line 91.\<close>

definition log_bound :: "sys \<Rightarrow> bool" where
  "log_bound s =
     (length (logs s) \<le> (if mission_thread s = Some (At W_trim) then 1001 else 1000))"














section \<open>Slices\<close>

lemma slice_from_neg: "0 < n \<Longrightarrow> slice_from (- n) xs = drop (length xs - nat n) xs"
  by (auto simp: slice_from_def max_def intro!: arg_cong2[where f=drop])

lemma tail_pos:
  "0 < n \<Longrightarrow> (if n < int (length xs) then slice_from (- n) xs else xs)
     = drop (length xs - nat n) xs"
  by (simp add: slice_from_neg)

lemma tail_nonpos:
  "n \<le> 0 \<Longrightarrow> (if n < int (length xs) then slice_from (- n) xs else xs) = drop (nat (- n)) xs"
  by (auto simp: slice_from_def)

lemma slice_from_zero: "slice_from 0 xs = xs"
  by (simp add: slice_from_def)

lemma slice_from_nonpos: "n \<le> 0 \<Longrightarrow> slice_from (- n) xs = drop (nat (- n)) xs"
  by (auto simp: slice_from_def)

section \<open>Starting a mission\<close>

text \<open>
  C1 (as amended). \<^verbatim>\<open>start_mission\<close> with a worker alive fails with the 400 error
  ``Mission already running'' and changes nothing. With no worker alive it clears the stop
  flag and starts a thread: when the start succeeds, the response is the success
  response, exactly one thread start is recorded, the new worker is alive at the first
  statement of the mission loop (no child has been spawned, nothing has been waited for);
  when the start raises, the call fails with a 500 error and no worker is alive.
\<close>

theorem start_mission_cases:
  "(thread_alive s \<longrightarrow>
      start_mission e s = (Inl (HTTPException 400 ''Mission already running''), s))
   \<and> (\<not> thread_alive s \<and> raises e = None \<longrightarrow>
        fst (start_mission e s) = Inr start_response
        \<and> snd (start_mission e s) =
            s\<lparr>mission_thread := Some (At W_entry), stop_mission_flag := False,
              effects := effects s @ [ThreadStart]\<rparr>
        \<and> thread_alive (snd (start_mission e s)))
   \<and> (\<forall>m. \<not> thread_alive s \<and> raises e = Some m \<longrightarrow>
        fst (start_mission e s) = Inl (HTTPException 500 (''Failed to start mission: '' @ m))
        \<and> snd (start_mission e s) =
            s\<lparr>mission_thread := Some Unstarted, stop_mission_flag := False\<rparr>
        \<and> \<not> thread_alive (snd (start_mission e s)))
   \<and> map_of start_response ''status'' = Some (JStr ''success'')"
  by (simp add: start_mission_def Let_def thread_alive_def start_response_def)

text \<open>
  The claim as stated (with no worker alive the call always succeeds) fails when
  \<^verbatim>\<open>mission_thread.start()\<close> raises: lines 163 to 165 turn the exception into a 500.
\<close>

theorem start_mission_spawn_failure_counterexample:
  "\<not> thread_alive init
   \<and> fst (start_mission env_no_thread init)
       = Inl (HTTPException 500 (''Failed to start mission: '' @ thread_error))
   \<and> \<not> thread_alive (snd (start_mission env_no_thread init))
   \<and> effects (snd (start_mission env_no_thread init)) = []"
  by (simp add: start_mission_def Let_def thread_alive_def init_def env_no_thread_def env_ok_def)

theorem start_mission_cases_witness:
  "\<not> thread_alive init \<and> raises env_ok = None
   \<and> fst (start_mission env_ok init) = Inr start_response
   \<and> thread_alive (snd (start_mission env_ok init))
   \<and> start_mission env_ok (snd (start_mission env_ok init)) =
       (Inl (HTTPException 400 ''Mission already running''), snd (start_mission env_ok init))
   \<and> raises env_no_thread = Some thread_error
   \<and> \<not> thread_alive (snd (start_mission env_no_thread init))"
proof -
  have a: "\<not> thread_alive init" by (simp add: thread_alive_def init_def)
  have r: "raises env_ok = None" by (simp add: env_ok_def)
  have r': "raises env_no_thread = Some thread_error" by (simp add: env_no_thread_def)
  from start_mission_cases[of init env_ok] a r
  have 1: "fst (start_mission env_ok init) = Inr start_response"
    and 2: "thread_alive (snd (start_mission env_ok init))" by blast+
  from start_mission_cases[of "snd (start_mission env_ok init)" env_ok] 2
  have 3: "start_mission env_ok (snd (start_mission env_ok init)) =
       (Inl (HTTPException 400 ''Mission already running''), snd (start_mission env_ok init))"
    by blast
  from start_mission_cases[of init env_no_thread] a r'
  have 4: "\<not> thread_alive (snd (start_mission env_no_thread init))" by blast
  show ?thesis using a r r' 1 2 3 4 by blast
qed

section \<open>Stopping when idle\<close>

text \<open>
  C7. \<^verbatim>\<open>stop_mission\<close> with no worker alive returns the success response with
  \<^verbatim>\<open>was_running\<close> false at its first statement; the flags, the process handle, the
  thread, the log buffer and the record of outside calls are unchanged (only the event
  loop holds the response); a second call gives the same state again, and the status
  is still ``idle''.
\<close>

theorem stop_when_idle_noop:
  assumes "event_loop_free s" and "\<not> thread_alive s"
  shows "exec_action (Stop e) s = s\<lparr>handler := H_returned (Inr no_mission_response)\<rparr>
   \<and> map_of no_mission_response ''status'' = Some (JStr ''success'')
   \<and> map_of no_mission_response ''was_running'' = Some (JBool False)
   \<and> exec_action (Stop e') (exec_action (Stop e) s) = exec_action (Stop e) s
   \<and> map_of (fst (mission_status (exec_action (Stop e) s))) ''status'' = Some (JStr ''idle'')"
  using assms
  by (simp add: stop_mission_entry_def enter_def event_loop_free_def thread_alive_def
      no_mission_response_def mission_status_def Let_def)

theorem stop_when_idle_noop_witness:
  "event_loop_free init \<and> \<not> thread_alive init
   \<and> exec_action (Stop env_ok) init = init\<lparr>handler := H_returned (Inr no_mission_response)\<rparr>
   \<and> map_of (fst (mission_status (exec_action (Stop env_ok) init))) ''status'' = Some (JStr ''idle'')"
proof -
  have f: "event_loop_free init" by (simp add: event_loop_free_def init_def)
  have a: "\<not> thread_alive init" by (simp add: thread_alive_def init_def)
  show ?thesis using stop_when_idle_noop[OF f a, of env_ok env_ok] f a by blast
qed

section \<open>Status\<close>


section \<open>Executions\<close>

lemma exec_Nil: "exec [] s = s"
  by (simp add: exec_def)

lemma exec_Cons: "exec (a # as) s = exec as (exec_action a s)"
  by (simp add: exec_def)

lemma exec_snoc: "exec (as @ [a]) s = exec_action a (exec as s)"
  by (simp add: exec_def)

lemma exec_append: "exec (as @ bs) s = exec bs (exec as s)"
  by (simp add: exec_def)

lemma worker_steps_Nil: "worker_steps [] s = s"
  by (simp add: worker_steps_def)

lemma worker_steps_Cons: "worker_steps (e # es) s = worker_steps es (worker_step e s)"
  by (simp add: worker_steps_def)

lemma exec_workers: "exec (map Worker ws) s = worker_steps ws s"
  by (induction ws arbitrary: s) (simp_all add: exec_Nil exec_Cons worker_steps_Nil worker_steps_Cons)

lemmas run_simps = exec_Cons exec_Nil init_def env_ok_def start_mission_def
      event_loop_free_def thread_alive_def enter_def worker_step_def goto_def Let_def




lemma sstep_frame:
  "mission_thread (sstep e pc s) = mission_thread s
   \<and> current_process (sstep e pc s) = current_process s
   \<and> (is_running (sstep e pc s) \<longrightarrow> is_running s)
   \<and> logs (sstep e pc s) = logs s"
  by (cases pc) (auto simp: enter_def logs_def split: option.splits)

lemma lstep_frame:
  "mission_thread (lstep e pc s) = mission_thread s
   \<and> current_process (lstep e pc s) = current_process s
   \<and> (is_running (lstep e pc s) \<longrightarrow> is_running s)
   \<and> logs (lstep e pc s) = logs s"
  by (cases pc) (auto simp: enter_def logs_def split: option.splits)

subsection \<open>The store of list objects\<close>

text \<open>
  The worker only ever appends to a list object that exists, and binds the global to a
  new one: an object, once made, keeps what it holds and may grow at its end.
\<close>

lemma wstep_store:
  assumes "mission_thread s = Some (At pc)" and "a < next_ref s"
  shows "(\<exists>more. heap (wstep e pc s) a = heap s a @ more)
         \<and> next_ref s \<le> next_ref (wstep e pc s)"
  using assms
  by (cases pc) (auto simp: goto_def logs_def split: option.splits)

lemma worker_step_store:
  assumes "a < next_ref s"
  shows "(\<exists>more. heap (worker_step e s) a = heap s a @ more)
         \<and> next_ref s \<le> next_ref (worker_step e s)"
proof (cases "mission_thread s")
  case None
  then show ?thesis by (simp add: worker_step_def)
next
  case (Some t)
  show ?thesis
  proof (cases t)
    case (At pc)
    with Some wstep_store[OF _ assms, of pc e] show ?thesis by (simp add: worker_step_def)
  qed (use Some in \<open>simp_all add: worker_step_def\<close>)
qed

lemma worker_steps_store:
  assumes "a < next_ref s"
  shows "\<exists>more. heap (worker_steps ws s) a = heap s a @ more"
  using assms
proof (induction ws arbitrary: s)
  case Nil
  then show ?case by (simp add: worker_steps_Nil)
next
  case (Cons e ws)
  from worker_step_store[OF Cons.prems, of e]
  obtain m1 where 1: "heap (worker_step e s) a = heap s a @ m1"
    and 2: "a < next_ref (worker_step e s)" using Cons.prems by auto
  from Cons.IH[OF 2] obtain m2
    where "heap (worker_steps ws (worker_step e s)) a = heap (worker_step e s) a @ m2" by blast
  with 1 show ?case by (simp add: worker_steps_Cons)
qed

subsection \<open>Whitespace\<close>

lemma dropWhile_all: "(\<forall>x\<in>set (dropWhile P l). P x) \<longleftrightarrow> (\<forall>x\<in>set l. P x)"
  by (induction l) auto

lemma strip_blank: "strip l = [] \<longleftrightarrow> list_all is_space l"
  by (simp add: strip_def dropWhile_all list_all_iff)

lemma strip_Nil: "strip [] = []"
  by (simp add: strip_def)

lemma strip_split:
  "dropWhile is_space l = strip l @ rev (takeWhile is_space (rev (dropWhile is_space l)))"
proof -
  let ?m = "dropWhile is_space l"
  have "?m = rev (rev ?m)" by simp
  also have "\<dots> = rev (takeWhile is_space (rev ?m) @ dropWhile is_space (rev ?m))"
    by (simp only: takeWhile_dropWhile_id)
  also have "\<dots> = strip l @ rev (takeWhile is_space (rev ?m))"
    by (simp only: rev_append strip_def)
  finally show ?thesis .
qed

lemma list_all_takeWhile: "list_all P (takeWhile P xs)"
  by (induction xs) simp_all

lemma strip_decomp:
  "\<exists>a b. l = a @ strip l @ b \<and> list_all is_space a \<and> list_all is_space b"
proof -
  let ?a = "takeWhile is_space l"
  let ?b = "rev (takeWhile is_space (rev (dropWhile is_space l)))"
  have "l = ?a @ dropWhile is_space l" by simp
  also have "\<dots> = ?a @ strip l @ ?b" using strip_split[of l] by simp
  finally have "l = ?a @ strip l @ ?b" .
  moreover have "list_all is_space ?a" by (rule list_all_takeWhile)
  moreover have "list_all is_space ?b" by (simp add: list_all_takeWhile)
  ultimately show ?thesis by blast
qed

lemma strip_ends:
  assumes "strip l \<noteq> []"
  shows "\<not> is_space (hd (strip l)) \<and> \<not> is_space (last (strip l))"
proof -
  let ?m = "dropWhile is_space l"
  let ?k = "dropWhile is_space (rev ?m)"
  from assms have k: "?k \<noteq> []" by (simp add: strip_def)
  then have "\<not> is_space (hd ?k)" by (rule hd_dropWhile)
  with k have l: "\<not> is_space (last (strip l))" by (simp add: strip_def last_rev)
  have m: "?m \<noteq> []"
  proof
    assume e: "?m = []"
    have "?k = []" unfolding e by simp
    with k show False by blast
  qed
  then have hm: "\<not> is_space (hd ?m)" by (rule hd_dropWhile)
  from assms have "hd (strip l @ rev (takeWhile is_space (rev ?m))) = hd (strip l)" by simp
  with strip_split[of l] have "hd ?m = hd (strip l)" by simp
  with hm l show ?thesis by simp
qed

lemma strip_frame1: "strip (ustr ''frame 1 captured'') = ustr ''frame 1 captured''"
  by (simp add: strip_def is_space_def ustr_def)

lemma strip_frame2: "strip (ustr ''frame 2 captured'') = ustr ''frame 2 captured''"
  by (simp add: strip_def is_space_def ustr_def)

lemma strip_padded:
  "strip ([0x20, 0xA0] @ ustr ''frame 1 captured'' @ [0x0A]) = ustr ''frame 1 captured''"
  by (simp add: strip_def is_space_def ustr_def)

lemma strip_nbsp: "strip [0xA0, 0x0A] = []"
  by (simp add: strip_def is_space_def)

lemma frame1_not_Nil: "ustr ''frame 1 captured'' \<noteq> []"
  by (simp add: ustr_def)

lemma frame2_not_Nil: "ustr ''frame 2 captured'' \<noteq> []"
  by (simp add: ustr_def)

lemma frames_differ: "ustr ''frame 1 captured'' \<noteq> ustr ''frame 2 captured''"
  by (simp add: ustr_def)

lemma strftime_noon: "strftime noon = ustr ''2024-05-17 12:00:09''"
  by (simp add: strftime_def pad4_def pad2_def digit_def noon_def ustr_def)

subsection \<open>The states of the examples\<close>

lemma reading_state:
  "reading = \<lparr>mission_thread = Some (At W_readline), stop_mission_flag = False,
              current_process = Some 4711, is_running = True,
              logs_ref = 0, heap = (\<lambda>a. []), next_ref = 1,
              handler = H_returned (Inr start_response),
              effects = [ThreadStart, Popen 4711]\<rparr>"
  by (simp add: reading_def spawn_schedule_def run_simps)

lemma examining_state:
  "examining = reading\<lparr>mission_thread := Some (At (W_check_stop (ustr ''frame 1 captured'')))\<rparr>"
  by (simp add: examining_def reading_state exec_Cons exec_Nil worker_step_def goto_def
      env_ok_def frame1_not_Nil)

lemma examining_padded_state:
  "examining_padded = reading\<lparr>mission_thread :=
      Some (At (W_check_stop ([0x20, 0xA0] @ ustr ''frame 1 captured'' @ [0x0A])))\<rparr>"
  by (simp add: examining_padded_def reading_state exec_Cons exec_Nil worker_step_def goto_def
      env_ok_def env_padded_def)

lemma examining_blank_state:
  "examining_blank = reading\<lparr>mission_thread := Some (At (W_check_stop [0xA0, 0x0A]))\<rparr>"
  by (simp add: examining_blank_def reading_state exec_Cons exec_Nil worker_step_def goto_def
      env_ok_def env_blank_def)

lemma stop_requested_state:
  "stop_requested = examining\<lparr>stop_mission_flag := True, handler := S_check_proc\<rparr>"
  by (simp add: stop_requested_def examining_state reading_state exec_Cons exec_Nil
      event_loop_free_def stop_mission_entry_def thread_alive_def enter_def)


section \<open>Reading the logs\<close>

lemma length_filter_tail: "length (filter P (drop (length xs - k) xs)) \<le> k"
  by (rule order_trans[OF length_filter_le]) simp

lemma seven_logs_logs:
  "logs seven_logs = map ustr [''a'', ''b'', ''c'', ''d'', ''e'', ''f'', ''g'']"
  by (simp add: seven_logs_def logs_def init_def)

lemma strip_k: "strip (ustr ''k'' @ [0x0A]) = ustr ''k''"
  by (simp add: strip_def is_space_def ustr_def)

lemma strip_m: "strip (ustr ''m'' @ [0x0A]) = ustr ''m''"
  by (simp add: strip_def is_space_def ustr_def)

lemma clean_three_lines:
  "map strip (filter (\<lambda>l. strip l \<noteq> []) three_lines) = [ustr ''k'', ustr ''m'']"
  by (simp add: three_lines_def strip_k strip_m strip_nbsp) (simp add: ustr_def)

lemma two_lines_reading:
  "worker_steps two_lines reading
     = reading\<lparr>heap := (\<lambda>a. [])(0 := [log_entry noon (ustr ''frame 1 captured''),
                                      log_entry noon (ustr ''frame 2 captured'')])\<rparr>"
  by (simp add: two_lines_def reading_state worker_steps_Cons worker_steps_Nil worker_step_def
      goto_def env_ok_def env_second_def frame1_not_Nil frame2_not_Nil strip_frame1 strip_frame2
      logs_def)

text \<open>
  C9 (as amended). For a positive line count \<open>N\<close> (100 when the parameter is omitted),
  \<^verbatim>\<open>get_logs\<close> returns at most \<open>N\<close> entries under \<^verbatim>\<open>logs\<close>. When the log file is read,
  these are the last \<open>N\<close> lines of the file, stripped and without the lines that hold
  only whitespace, and the response gives the number of lines of the file and the size
  the buffer has when the handler returns. Under \<^verbatim>\<open>runtime_logs\<close> it returns a new list
  of the last \<open>N\<close> entries of the buffer when the buffer holds more than \<open>N\<close>, and
  otherwise the list object of the buffer itself: all its entries, at most \<open>N\<close> when the
  handler reads it, followed by what the worker appends while the handler logs; with
  the worker at rest that is the buffer as it was. When the file is missing or cannot
  be read, \<^verbatim>\<open>logs\<close> holds one message, \<^verbatim>\<open>total_lines\<close> is 0, \<^verbatim>\<open>runtime_logs\<close> is a new
  list of the last \<open>N\<close> entries and there is no \<^verbatim>\<open>total_runtime_logs\<close>. The handler
  itself changes no state.
\<close>

theorem get_logs_positive:
  assumes "0 < lines_param q"
  shows "length (entries (fst (get_logs q f ws s)) ''logs'') \<le> nat (lines_param q)
   \<and> (\<forall>all_lines. f = Content all_lines \<longrightarrow>
        entries (fst (get_logs q f ws s)) ''logs'' =
          map strip (filter (\<lambda>l. strip l \<noteq> [])
            (drop (length all_lines - nat (lines_param q)) all_lines))
        \<and> map_of (fst (get_logs q f ws s)) ''total_lines'' = Some (JInt (int (length all_lines)))
        \<and> map_of (fst (get_logs q f ws s)) ''total_runtime_logs'' =
            Some (JInt (int (length (logs (worker_steps ws s)))))
        \<and> snd (get_logs q f ws s) = worker_steps ws s
        \<and> (nat (lines_param q) < length (logs s) \<longrightarrow>
             entries (fst (get_logs q f ws s)) ''runtime_logs'' =
               drop (length (logs s) - nat (lines_param q)) (logs s)
             \<and> length (entries (fst (get_logs q f ws s)) ''runtime_logs'') = nat (lines_param q))
        \<and> (length (logs s) \<le> nat (lines_param q) \<longrightarrow>
             entries (fst (get_logs q f ws s)) ''runtime_logs'' =
               heap (worker_steps ws s) (logs_ref s)
             \<and> (logs_ref s < next_ref s \<longrightarrow>
                  (\<exists>more. entries (fst (get_logs q f ws s)) ''runtime_logs'' = logs s @ more))
             \<and> (ws = [] \<longrightarrow> entries (fst (get_logs q f ws s)) ''runtime_logs'' = logs s)))
   \<and> (f = Missing \<longrightarrow>
        entries (fst (get_logs q f ws s)) ''logs'' = [ustr ''Log file not found'']
        \<and> map_of (fst (get_logs q f ws s)) ''total_lines'' = Some (JInt 0)
        \<and> map_of (fst (get_logs q f ws s)) ''total_runtime_logs'' = None
        \<and> entries (fst (get_logs q f ws s)) ''runtime_logs'' =
             drop (length (logs s) - nat (lines_param q)) (logs s)
        \<and> snd (get_logs q f ws s) = s)
   \<and> (\<forall>m. f = Unreadable m \<longrightarrow>
        entries (fst (get_logs q f ws s)) ''logs'' = [ustr (''Error reading logs: '' @ m)]
        \<and> map_of (fst (get_logs q f ws s)) ''total_lines'' = Some (JInt 0)
        \<and> map_of (fst (get_logs q f ws s)) ''total_runtime_logs'' = None
        \<and> entries (fst (get_logs q f ws s)) ''runtime_logs'' =
             drop (length (logs s) - nat (lines_param q)) (logs s)
        \<and> snd (get_logs q f ws s) = s)
   \<and> lines_param None = 100"
proof -
  have d: "lines_param None = 100" by (simp add: lines_param_def)
  have n: "Suc 0 \<le> nat (lines_param q)" using assms by simp
  show ?thesis
  proof (cases f)
    case Missing
    with assms n d show ?thesis
      by (simp add: get_logs_def Let_def entries_def slice_from_neg)
  next
    case (Unreadable m)
    with assms n d show ?thesis
      by (simp add: get_logs_def Let_def entries_def slice_from_neg)
  next
    case (Content all_lines)
    have st: "logs_ref s < next_ref s \<Longrightarrow> \<exists>more. heap (worker_steps ws s) (logs_ref s) = logs s @ more"
      using worker_steps_store[of "logs_ref s" s ws] by (simp add: logs_def)
    have w0: "heap (worker_steps [] s) (logs_ref s) = logs s"
      by (simp add: worker_steps_Nil logs_def)
    have lt: "nat (lines_param q) < length (logs s) \<longleftrightarrow> lines_param q < int (length (logs s))"
      using assms by auto
    show ?thesis
    proof (cases "nat (lines_param q) < length (logs s)")
      case True
      with Content assms d lt show ?thesis
        by (simp add: get_logs_def Let_def entries_def tail_pos slice_from_neg length_filter_tail)
    next
      case False
      with Content assms d lt st w0 show ?thesis
        by (auto simp: get_logs_def Let_def entries_def tail_pos length_filter_tail)
    qed
  qed
qed

text \<open>
  The claim as stated promises, on every call, the total counts of both sources and at
  most \<open>N\<close> entries of the buffer. With the log file missing (line 262) the count of the
  buffer is not in the response; and with \<^verbatim>\<open>lines=1\<close> and a buffer that is empty when
  line 272 reads it, the response holds the two entries that the worker appends to that
  same list while the handler logs at line 274.
\<close>

theorem get_logs_missing_file_counterexample:
  "0 < lines_param (Some 5)
   \<and> map_of (fst (get_logs (Some 5) Missing [] seven_logs)) ''total_runtime_logs'' = None
   \<and> map_of (fst (get_logs (Some 5) Missing [] seven_logs)) ''total_lines'' = Some (JInt 0)
   \<and> 0 < lines_param (Some 1)
   \<and> entries (fst (get_logs (Some 1) (Content []) two_lines reading)) ''runtime_logs''
       = [log_entry noon (ustr ''frame 1 captured''), log_entry noon (ustr ''frame 2 captured'')]"
  by (simp add: get_logs_def Let_def lines_param_def entries_def two_lines_reading)
    (simp add: reading_state logs_def)

theorem get_logs_positive_witness:
  "0 < lines_param (Some 5)
   \<and> entries (fst (get_logs (Some 5) (Content three_lines) [] seven_logs)) ''runtime_logs''
       = map ustr [''c'', ''d'', ''e'', ''f'', ''g'']
   \<and> map_of (fst (get_logs (Some 5) (Content three_lines) [] seven_logs)) ''total_runtime_logs''
       = Some (JInt 7)
   \<and> entries (fst (get_logs (Some 5) (Content three_lines) [] seven_logs)) ''logs''
       = [ustr ''k'', ustr ''m'']
   \<and> map_of (fst (get_logs (Some 5) (Content three_lines) [] seven_logs)) ''total_lines''
       = Some (JInt 3)"
proof -
  have p: "0 < lines_param (Some 5)" and v: "nat (lines_param (Some 5)) = 5"
    by (simp_all add: lines_param_def)
  have l: "nat (lines_param (Some 5)) < length (logs seven_logs)"
    by (simp add: lines_param_def seven_logs_logs)
  from get_logs_positive[OF p, of "Content three_lines" "[]" seven_logs] l
  have 1: "entries (fst (get_logs (Some 5) (Content three_lines) [] seven_logs)) ''runtime_logs''
          = drop (length (logs seven_logs) - nat (lines_param (Some 5))) (logs seven_logs)"
    and 2: "map_of (fst (get_logs (Some 5) (Content three_lines) [] seven_logs)) ''total_runtime_logs''
          = Some (JInt (int (length (logs (worker_steps [] seven_logs)))))"
    and 3: "entries (fst (get_logs (Some 5) (Content three_lines) [] seven_logs)) ''logs''
          = map strip (filter (\<lambda>l. strip l \<noteq> [])
              (drop (length three_lines - nat (lines_param (Some 5))) three_lines))"
    and 4: "map_of (fst (get_logs (Some 5) (Content three_lines) [] seven_logs)) ''total_lines''
          = Some (JInt (int (length three_lines)))"
    by blast+
  have t: "length three_lines = 3" by (simp add: three_lines_def)
  from 1 have a: "entries (fst (get_logs (Some 5) (Content three_lines) [] seven_logs)) ''runtime_logs''
       = map ustr [''c'', ''d'', ''e'', ''f'', ''g'']"
    by (simp add: v seven_logs_logs)
  from 2 have b: "map_of (fst (get_logs (Some 5) (Content three_lines) [] seven_logs)) ''total_runtime_logs''
       = Some (JInt 7)"
    by (simp add: worker_steps_Nil seven_logs_logs)
  from 3 have c: "entries (fst (get_logs (Some 5) (Content three_lines) [] seven_logs)) ''logs''
       = [ustr ''k'', ustr ''m'']"
    by (simp add: v t clean_three_lines)
  from 4 have e: "map_of (fst (get_logs (Some 5) (Content three_lines) [] seven_logs)) ''total_lines''
       = Some (JInt 3)"
    by (simp add: t)
  show ?thesis using p a b c e by blast
qed

text \<open>
  C10 (as amended). A line count that is zero or negative is not clamped. When the
  file is read, \<^verbatim>\<open>logs\<close> holds the lines of the file without the first \<open>|lines|\<close> of
  them, stripped and without the lines that hold only whitespace, so for \<^verbatim>\<open>lines=0\<close>
  every line of the file that is not blank; \<^verbatim>\<open>total_lines\<close> counts all lines. A new
  list of the buffer without its first \<open>|lines|\<close> entries is returned under
  \<^verbatim>\<open>runtime_logs\<close> on every path, so for \<^verbatim>\<open>lines=0\<close> the whole buffer; only with
  \<^verbatim>\<open>lines=0\<close>, the file read and the buffer empty it is the list object of the buffer
  itself, holding what the worker appends while the handler logs.
\<close>

theorem get_logs_nonpositive:
  assumes "lines_param q \<le> 0"
  shows "(\<forall>all_lines. f = Content all_lines \<longrightarrow>
        entries (fst (get_logs q f ws s)) ''logs'' =
          map strip (filter (\<lambda>l. strip l \<noteq> []) (drop (nat (- lines_param q)) all_lines))
        \<and> map_of (fst (get_logs q f ws s)) ''total_lines'' = Some (JInt (int (length all_lines)))
        \<and> (lines_param q < 0 \<or> logs s \<noteq> [] \<longrightarrow>
             entries (fst (get_logs q f ws s)) ''runtime_logs''
               = drop (nat (- lines_param q)) (logs s))
        \<and> (lines_param q = 0 \<and> logs s = [] \<longrightarrow>
             entries (fst (get_logs q f ws s)) ''runtime_logs''
               = heap (worker_steps ws s) (logs_ref s)))
   \<and> (f = Missing \<or> (\<exists>m. f = Unreadable m) \<longrightarrow>
        entries (fst (get_logs q f ws s)) ''runtime_logs'' = drop (nat (- lines_param q)) (logs s))
   \<and> (lines_param q = 0 \<longrightarrow>
        (\<forall>all_lines. f = Content all_lines \<longrightarrow>
             entries (fst (get_logs q f ws s)) ''logs'' =
               map strip (filter (\<lambda>l. strip l \<noteq> []) all_lines))
        \<and> (logs s \<noteq> [] \<or> ws = [] \<or> f = Missing \<or> (\<exists>m. f = Unreadable m) \<longrightarrow>
             entries (fst (get_logs q f ws s)) ''runtime_logs'' = logs s))"
proof -
  have w0: "heap (worker_steps [] s) (logs_ref s) = logs s"
    by (simp add: worker_steps_Nil logs_def)
  show ?thesis
  proof (cases f)
    case Missing
    with assms show ?thesis
      by (simp add: get_logs_def Let_def entries_def slice_from_nonpos slice_from_zero)
  next
    case (Unreadable m)
    with assms show ?thesis
      by (simp add: get_logs_def Let_def entries_def slice_from_nonpos slice_from_zero)
  next
    case (Content all_lines)
    have fl: "entries (fst (get_logs q f ws s)) ''logs'' =
          map strip (filter (\<lambda>l. strip l \<noteq> []) (drop (nat (- lines_param q)) all_lines))"
      using assms Content by (simp add: get_logs_def Let_def entries_def tail_nonpos)
    have tl: "map_of (fst (get_logs q f ws s)) ''total_lines'' = Some (JInt (int (length all_lines)))"
      using Content by (simp add: get_logs_def Let_def)
    have r1: "lines_param q < 0 \<or> logs s \<noteq> [] \<Longrightarrow>
             entries (fst (get_logs q f ws s)) ''runtime_logs''
               = drop (nat (- lines_param q)) (logs s)"
    proof -
      assume "lines_param q < 0 \<or> logs s \<noteq> []"
      with assms have "lines_param q < int (length (logs s))" by (cases "logs s") auto
      with assms Content show ?thesis
        by (simp add: get_logs_def Let_def entries_def slice_from_nonpos)
    qed
    have r2: "lines_param q = 0 \<and> logs s = [] \<Longrightarrow>
             entries (fst (get_logs q f ws s)) ''runtime_logs''
               = heap (worker_steps ws s) (logs_ref s)"
      using Content by (simp add: get_logs_def Let_def entries_def)
    from fl tl r1 r2 w0 Content show ?thesis by (cases "logs s = []") auto
  qed
qed

text \<open>
  The claim as stated says that \<^verbatim>\<open>lines=0\<close> returns every line of the log file. Of a
  file of three lines, one of them blank, it returns two.
\<close>

theorem get_logs_blank_line_counterexample:
  "lines_param (Some 0) = 0
   \<and> length three_lines = 3
   \<and> entries (fst (get_logs (Some 0) (Content three_lines) [] seven_logs)) ''logs''
       = [ustr ''k'', ustr ''m'']
   \<and> map_of (fst (get_logs (Some 0) (Content three_lines) [] seven_logs)) ''total_lines''
       = Some (JInt 3)"
proof -
  have "entries (fst (get_logs (Some 0) (Content three_lines) [] seven_logs)) ''logs''
       = map strip (filter (\<lambda>l. strip l \<noteq> []) three_lines)"
    by (simp add: get_logs_def Let_def lines_param_def entries_def slice_from_zero)
  then show ?thesis
    by (simp add: clean_three_lines) (simp add: get_logs_def Let_def lines_param_def three_lines_def)
qed

theorem get_logs_nonpositive_witness:
  "lines_param (Some 0) \<le> 0 \<and> lines_param (Some (- 2)) \<le> 0
   \<and> entries (fst (get_logs (Some 0) Missing [] seven_logs)) ''runtime_logs'' = logs seven_logs
   \<and> entries (fst (get_logs (Some (- 2)) (Content three_lines) two_lines seven_logs)) ''runtime_logs''
       = map ustr [''c'', ''d'', ''e'', ''f'', ''g'']
   \<and> entries (fst (get_logs (Some (- 2)) (Content three_lines) two_lines seven_logs)) ''logs''
       = [ustr ''m'']"
proof -
  have p: "lines_param (Some 0) \<le> 0" and n: "lines_param (Some (- 2)) \<le> 0"
    by (simp_all add: lines_param_def)
  from get_logs_nonpositive[OF p, of Missing "[]" seven_logs]
  have 1: "entries (fst (get_logs (Some 0) Missing [] seven_logs)) ''runtime_logs'' = logs seven_logs"
    by (simp add: lines_param_def)
  have ne: "logs seven_logs \<noteq> []" by (simp add: seven_logs_logs)
  from get_logs_nonpositive[OF n, of "Content three_lines" two_lines seven_logs] ne
  have 2: "entries (fst (get_logs (Some (- 2)) (Content three_lines) two_lines seven_logs)) ''runtime_logs''
       = drop (nat (- lines_param (Some (- 2)))) (logs seven_logs)"
    and 3: "entries (fst (get_logs (Some (- 2)) (Content three_lines) two_lines seven_logs)) ''logs''
       = map strip (filter (\<lambda>l. strip l \<noteq> []) (drop (nat (- lines_param (Some (- 2)))) three_lines))"
    by blast+
  from 2 have a: "entries (fst (get_logs (Some (- 2)) (Content three_lines) two_lines seven_logs)) ''runtime_logs''
       = map ustr [''c'', ''d'', ''e'', ''f'', ''g'']"
    by (simp add: lines_param_def seven_logs_logs)
  from 3 have b: "entries (fst (get_logs (Some (- 2)) (Content three_lines) two_lines seven_logs)) ''logs''
       = [ustr ''m'']"
    by (simp add: lines_param_def three_lines_def strip_m) (simp add: ustr_def)
  show ?thesis using p n 1 a b by blast
qed

section \<open>The process handle and the running flag\<close>

lemma worker_inv_cong:
  "current_process t = current_process s \<Longrightarrow> (is_running t \<longrightarrow> is_running s)
   \<Longrightarrow> worker_inv pc s \<Longrightarrow> worker_inv pc t"
  by (cases pc) auto

lemma worker_inv_handler: "worker_inv pc (s\<lparr>handler := h\<rparr>) = worker_inv pc s"
  by (cases pc) simp_all

lemma consistent_cong:
  "mission_thread t = mission_thread s \<Longrightarrow> current_process t = current_process s
   \<Longrightarrow> (is_running t \<longrightarrow> is_running s) \<Longrightarrow> consistent s \<Longrightarrow> consistent t"
  unfolding consistent_def
  by (auto split: option.splits thread.splits intro: worker_inv_cong)

lemma consistent_init: "consistent init"
  by (simp add: consistent_def init_def)

lemma consistent_wstep:
  "mission_thread s = Some (At pc) \<Longrightarrow> worker_inv pc s \<Longrightarrow> consistent (wstep e pc s)"
  by (cases pc) (auto simp: consistent_def goto_def split: option.splits)

lemma consistent_worker_step: "consistent s \<Longrightarrow> consistent (worker_step e s)"
  unfolding worker_step_def
  by (auto simp: consistent_def[of s] consistent_wstep split: option.splits thread.splits)

lemma consistent_start:
  "consistent s \<Longrightarrow> consistent (enter h (snd (start_mission e s)))"
  by (auto simp: worker_inv_handler start_mission_def Let_def consistent_def thread_alive_def enter_def
      split: option.splits thread.splits)

lemma consistent_exec_action: "consistent s \<Longrightarrow> consistent (exec_action a s)"
proof (cases a)
  case (Worker e)
  assume "consistent s"
  with Worker show ?thesis by (simp add: consistent_worker_step)
next
  case (Start e)
  assume "consistent s"
  with Start consistent_start[of s _ e] show ?thesis
    by (auto split: prod.splits)
next
  case (Stop e)
  assume c: "consistent s"
  show ?thesis
  proof (cases "event_loop_free s")
    case True
    with Stop c show ?thesis
      by (auto simp: stop_mission_entry_def enter_def intro: consistent_cong[of _ s])
  next
    case False
    with Stop c sstep_frame[of e "handler s" s] show ?thesis
      by (auto intro: consistent_cong[of _ s])
  qed
next
  case (Shutdown e)
  assume c: "consistent s"
  show ?thesis
  proof (cases "event_loop_free s")
    case True
    with Shutdown c show ?thesis
      by (auto simp: shutdown_entry_def enter_def intro: consistent_cong[of _ s])
  next
    case False
    with Shutdown c lstep_frame[of e "handler s" s] show ?thesis
      by (auto intro: consistent_cong[of _ s])
  qed
qed

lemma consistent_exec: "consistent s \<Longrightarrow> consistent (exec as s)"
  by (induction as rule: rev_induct) (simp_all add: exec_snoc consistent_exec_action exec_def)

lemma consistent_reachable: "consistent (exec as init)"
  by (rule consistent_exec[OF consistent_init])



text \<open>
  C3 (as amended). In every state the service reaches, under every interleaving of
  the worker with the handlers: \<^verbatim>\<open>is_running\<close> is true only while a process handle is
  recorded, a process handle is recorded only while the worker thread is alive, and with
  no worker alive \<^verbatim>\<open>is_running\<close> is false.
\<close>

theorem handle_and_flag_invariant:
  "(is_running (exec as init) \<longrightarrow> current_process (exec as init) \<noteq> None)
   \<and> (current_process (exec as init) \<noteq> None \<longrightarrow> thread_alive (exec as init))
   \<and> (\<not> thread_alive (exec as init) \<longrightarrow> \<not> is_running (exec as init))"
proof -
  have c: "consistent (exec as init)" by (rule consistent_reachable)
  have *: "consistent s \<Longrightarrow> (is_running s \<longrightarrow> current_process s \<noteq> None)
     \<and> (current_process s \<noteq> None \<longrightarrow> thread_alive s) \<and> (\<not> thread_alive s \<longrightarrow> \<not> is_running s)" for s
  proof -
    assume cs: "consistent s"
    show ?thesis
    proof (cases "mission_thread s")
      case None
      with cs show ?thesis by (simp add: consistent_def thread_alive_def)
    next
      case (Some t)
      show ?thesis
      proof (cases t)
        case (At pc)
        with Some cs show ?thesis
          by (cases pc) (auto simp: consistent_def thread_alive_def)
      qed (use Some cs in \<open>auto simp: consistent_def thread_alive_def\<close>)
    qed
  qed
  from *[OF c] show ?thesis .
qed


text \<open>
  The claim as stated (a handle is recorded only while \<^verbatim>\<open>is_running\<close> is true) fails
  right after line 64: the handle is assigned there, the flag at line 74.
\<close>

theorem handle_without_flag_counterexample:
  "current_process (exec spawn_schedule init) = Some 4711
   \<and> \<not> is_running (exec spawn_schedule init)"
  by (simp add: spawn_schedule_def exec_Cons exec_Nil init_def env_ok_def start_mission_def
      event_loop_free_def thread_alive_def enter_def worker_step_def goto_def Let_def)

theorem handle_and_flag_invariant_witness:
  "thread_alive (exec spawn_schedule init)
   \<and> is_running (exec (spawn_schedule @ [Worker env_ok]) init)
   \<and> current_process (exec (spawn_schedule @ [Worker env_ok]) init) \<noteq> None"
proof -
  have 1: "current_process (exec spawn_schedule init) \<noteq> None"
    by (simp add: spawn_schedule_def exec_Cons exec_Nil init_def env_ok_def start_mission_def
      event_loop_free_def thread_alive_def enter_def worker_step_def goto_def Let_def)
  have 2: "is_running (exec (spawn_schedule @ [Worker env_ok]) init)"
    by (simp add: spawn_schedule_def exec_Cons exec_Nil init_def env_ok_def start_mission_def
      event_loop_free_def thread_alive_def enter_def worker_step_def goto_def Let_def)
  from handle_and_flag_invariant[of spawn_schedule] 1
  have a: "thread_alive (exec spawn_schedule init)" by blast
  from handle_and_flag_invariant[of "spawn_schedule @ [Worker env_ok]"] 2
  have b: "current_process (exec (spawn_schedule @ [Worker env_ok]) init) \<noteq> None" by blast
  show ?thesis using a b 2 by blast
qed

section \<open>The end of the mission loop\<close>










section \<open>The log buffer\<close>

lemma trim_logs_drop: "trim_logs xs = drop (length xs - 1000) xs"
  by (simp add: trim_logs_def slice_from_neg)

lemma trim_snoc:
  "trim_logs (drop (length xs - 1000) xs @ [x]) = drop (Suc (length xs) - 1000) (xs @ [x])"
proof (cases "length xs < 1000")
  case True
  then show ?thesis by (simp add: trim_logs_drop)
next
  case False
  then obtain k where k: "length xs = 1000 + k"
    by (metis le_Suc_ex not_less)
  have "trim_logs (drop k xs @ [x]) = drop (Suc k) xs @ [x]"
    using k by (simp add: trim_logs_drop)
  with k show ?thesis by simp
qed

lemma fold_trim:
  "length ls \<le> 1000 \<Longrightarrow>
   foldl (\<lambda>ls e. trim_logs (ls @ [f e])) ls es
     = drop (length ls + length es - 1000) (ls @ map f es)"
proof (induction es rule: rev_induct)
  case Nil
  then show ?case by simp
next
  case (snoc e es)
  then show ?case
    using trim_snoc[of "ls @ map f es" "f e"] by simp
qed

text \<open>One line through the loop: appended in place, then the buffer cut if need be.\<close>

lemma append_then_trim:
  assumes "mission_thread s = Some (At (W_append l))" and "strip l \<noteq> []"
  shows "logs (exec [Worker e, Worker e'] s) = trim_logs (logs s @ [log_entry (now e) l])
         \<and> mission_thread (exec [Worker e, Worker e'] s) = Some (At W_readline)
         \<and> stop_mission_flag (exec [Worker e, Worker e'] s) = stop_mission_flag s
         \<and> current_process (exec [Worker e, Worker e'] s) = current_process s
         \<and> is_running (exec [Worker e, Worker e'] s) = is_running s
         \<and> handler (exec [Worker e, Worker e'] s) = handler s
         \<and> effects (exec [Worker e, Worker e'] s) = effects s
         \<and> (length (logs s) < 1000 \<longrightarrow>
              exec [Worker e, Worker e'] s
                = s\<lparr>mission_thread := Some (At W_readline),
                    heap := (heap s)(logs_ref s := logs s @ [log_entry (now e) l])\<rparr>)"
  using assms
  by (cases s)
    (simp add: exec_Cons exec_Nil worker_step_def goto_def logs_def trim_logs_def)

lemma feed_exec:
  assumes "mission_thread s = Some (At W_readline)" and "\<not> stop_mission_flag s"
    and "raises e = None" and "strip (line e) \<noteq> []"
  shows "logs (exec (feed e) s) = trim_logs (logs s @ [log_entry (now e) (line e)])
         \<and> mission_thread (exec (feed e) s) = Some (At W_readline)
         \<and> \<not> stop_mission_flag (exec (feed e) s)"
proof -
  from assms(4) have ne: "line e \<noteq> []" using strip_Nil by auto
  let ?t = "exec [Worker e, Worker e] s"
  from assms ne have t: "?t = s\<lparr>mission_thread := Some (At (W_append (line e)))\<rparr>"
    by (simp add: exec_Cons exec_Nil worker_step_def goto_def)
  then have a: "mission_thread ?t = Some (At (W_append (line e)))"
    and l: "logs ?t = logs s" and f: "stop_mission_flag ?t = stop_mission_flag s"
    by (simp_all add: logs_def)
  have "exec (feed e) s = exec [Worker e, Worker e] ?t"
    by (simp add: feed_def exec_Cons exec_Nil)
  with append_then_trim[OF a assms(4), of e e] l f assms(2) show ?thesis by simp
qed

lemma feeds_exec:
  assumes "mission_thread s = Some (At W_readline)" and "\<not> stop_mission_flag s"
    and "\<forall>e\<in>set es. raises e = None \<and> strip (line e) \<noteq> []"
  shows "logs (exec (concat (map feed es)) s) =
           foldl (\<lambda>ls e. trim_logs (ls @ [log_entry (now e) (line e)])) (logs s) es"
  using assms
proof (induction es arbitrary: s)
  case Nil
  then show ?case by (simp add: exec_Nil)
next
  case (Cons e es)
  let ?t = "exec (feed e) s"
  from Cons.prems have t: "logs ?t = trim_logs (logs s @ [log_entry (now e) (line e)])"
    "mission_thread ?t = Some (At W_readline)" "\<not> stop_mission_flag ?t"
    using feed_exec[of s e] by simp_all
  from Cons.prems have "logs (exec (concat (map feed es)) ?t) =
      foldl (\<lambda>ls e. trim_logs (ls @ [log_entry (now e) (line e)])) (logs ?t) es"
    by (intro Cons.IH t) simp_all
  with t show ?case by (simp add: exec_append)
qed

lemma log_bound_wstep:
  "mission_thread s = Some (At pc) \<Longrightarrow> log_bound s \<Longrightarrow> log_bound (wstep e pc s)"
  by (cases pc)
    (auto simp: log_bound_def goto_def logs_def slice_from_neg split: option.splits)

lemma log_bound_cong:
  "mission_thread t = mission_thread s \<Longrightarrow> logs t = logs s \<Longrightarrow> log_bound s \<Longrightarrow> log_bound t"
  by (simp add: log_bound_def)

lemma log_bound_start: "log_bound s \<Longrightarrow> log_bound (enter h (snd (start_mission e s)))"
  by (auto simp: start_mission_def Let_def log_bound_def logs_def thread_alive_def enter_def
      split: option.splits if_splits)

lemma log_bound_exec_action: "log_bound s \<Longrightarrow> log_bound (exec_action a s)"
proof (cases a)
  case (Worker e)
  assume "log_bound s"
  with Worker show ?thesis
    by (auto simp: worker_step_def log_bound_wstep split: option.splits thread.splits)
next
  case (Start e)
  assume "log_bound s"
  with Start log_bound_start[of s _ e] show ?thesis
    by (auto split: prod.splits)
next
  case (Stop e)
  assume c: "log_bound s"
  show ?thesis
  proof (cases "event_loop_free s")
    case True
    with Stop c show ?thesis
      by (auto simp: stop_mission_entry_def enter_def logs_def intro: log_bound_cong[of _ s])
  next
    case False
    with Stop c sstep_frame[of e "handler s" s] show ?thesis
      by (auto intro: log_bound_cong[of _ s])
  qed
next
  case (Shutdown e)
  assume c: "log_bound s"
  show ?thesis
  proof (cases "event_loop_free s")
    case True
    with Shutdown c show ?thesis
      by (auto simp: shutdown_entry_def enter_def logs_def intro: log_bound_cong[of _ s])
  next
    case False
    with Shutdown c lstep_frame[of e "handler s" s] show ?thesis
      by (auto intro: log_bound_cong[of _ s])
  qed
qed

lemma log_bound_reachable: "log_bound (exec as init)"
proof (induction as rule: rev_induct)
  case Nil
  show ?case by (simp add: exec_Nil log_bound_def logs_def init_def)
next
  case (snoc a as)
  then show ?case by (simp add: exec_snoc log_bound_exec_action)
qed

text \<open>
  C2. In every state the service reaches the buffer holds at most 1000 entries, except
  between an append and the cut that follows it (lines 86 and 91). When the loop takes
  non-blank lines through, one after the other, the buffer then holds the last 1000
  entries of what it held followed by the new entries, in that order; so after more than
  1000 lines exactly the entries of the last 1000 lines remain.
\<close>

theorem log_buffer_keeps_last_1000:
  "(mission_thread (exec as init) \<noteq> Some (At W_trim) \<longrightarrow> length (logs (exec as init)) \<le> 1000)
   \<and> (mission_thread s = Some (At W_readline) \<and> \<not> stop_mission_flag s
        \<and> length (logs s) \<le> 1000
        \<and> (\<forall>e\<in>set es. raises e = None \<and> strip (line e) \<noteq> []) \<longrightarrow>
      logs (exec (concat (map feed es)) s)
        = drop (length (logs s) + length es - 1000)
            (logs s @ map (\<lambda>e. log_entry (now e) (line e)) es)
      \<and> length (logs (exec (concat (map feed es)) s)) \<le> 1000
      \<and> (1000 < length es \<longrightarrow>
           logs (exec (concat (map feed es)) s)
             = drop (length es - 1000) (map (\<lambda>e. log_entry (now e) (line e)) es)))"
proof (intro conjI impI)
  assume "mission_thread (exec as init) \<noteq> Some (At W_trim)"
  with log_bound_reachable[of as] show "length (logs (exec as init)) \<le> 1000"
    by (simp add: log_bound_def)
next
  assume a: "mission_thread s = Some (At W_readline) \<and> \<not> stop_mission_flag s
        \<and> length (logs s) \<le> 1000
        \<and> (\<forall>e\<in>set es. raises e = None \<and> strip (line e) \<noteq> [])"
  then have "logs (exec (concat (map feed es)) s) =
         foldl (\<lambda>ls e. trim_logs (ls @ [log_entry (now e) (line e)])) (logs s) es"
    by (intro feeds_exec) simp_all
  with a show eq: "logs (exec (concat (map feed es)) s)
        = drop (length (logs s) + length es - 1000)
            (logs s @ map (\<lambda>e. log_entry (now e) (line e)) es)"
    by (simp add: fold_trim)
  from a show "length (logs (exec (concat (map feed es)) s)) \<le> 1000"
    unfolding eq by simp
  assume "1000 < length es"
  then show "logs (exec (concat (map feed es)) s)
             = drop (length es - 1000) (map (\<lambda>e. log_entry (now e) (line e)) es)"
    unfolding eq by simp
qed

theorem log_buffer_keeps_last_1000_witness:
  "mission_thread reading = Some (At W_readline) \<and> \<not> stop_mission_flag reading
   \<and> length (logs reading) \<le> 1000
   \<and> logs (exec (concat (map feed (replicate 1500 env_ok))) reading)
       = replicate 1000 (log_entry noon (ustr ''frame 1 captured''))
   \<and> logs (exec (concat (map feed [env_ok, env_second])) reading)
       = [log_entry noon (ustr ''frame 1 captured''), log_entry noon (ustr ''frame 2 captured'')]"
proof -
  have r: "mission_thread reading = Some (At W_readline)" "\<not> stop_mission_flag reading"
    "length (logs reading) \<le> 1000" "logs reading = []"
    by (simp_all add: reading_state logs_def)
  have h1: "\<forall>e\<in>set (replicate 1500 env_ok). raises e = None \<and> strip (line e) \<noteq> []"
    by (simp add: env_ok_def strip_frame1 frame1_not_Nil)
  have h2: "\<forall>e\<in>set [env_ok, env_second]. raises e = None \<and> strip (line e) \<noteq> []"
    by (simp add: env_ok_def env_second_def strip_frame1 strip_frame2 frame1_not_Nil
        frame2_not_Nil)
  from log_buffer_keeps_last_1000[where s = reading and es = "replicate 1500 env_ok"] r h1
  have 1: "logs (exec (concat (map feed (replicate 1500 env_ok))) reading)
       = drop (length (replicate 1500 env_ok) - 1000)
           (map (\<lambda>e. log_entry (now e) (line e)) (replicate 1500 env_ok))"
    by simp
  from log_buffer_keeps_last_1000[where s = reading and es = "[env_ok, env_second]"] r h2
  have 2: "logs (exec (concat (map feed [env_ok, env_second])) reading)
       = drop (length (logs reading) + length [env_ok, env_second] - 1000)
            (logs reading @ map (\<lambda>e. log_entry (now e) (line e)) [env_ok, env_second])"
    by blast
  from 1 have b1: "logs (exec (concat (map feed (replicate 1500 env_ok))) reading)
       = replicate 1000 (log_entry noon (ustr ''frame 1 captured''))"
    by (simp add: env_ok_def)
  from 2 have b2: "logs (exec (concat (map feed [env_ok, env_second])) reading)
       = [log_entry noon (ustr ''frame 1 captured''), log_entry noon (ustr ''frame 2 captured'')]"
    by (simp add: r env_ok_def env_second_def)
  show ?thesis using r b1 b2 by blast
qed

section \<open>One line of the child's output\<close>

lemma is_digit_digit: "is_digit (digit n)"
  by (simp add: is_digit_def digit_def)

lemma is_timestamp_strftime: "is_timestamp (strftime d)"
  by (simp add: is_timestamp_def timestamp_mask_def strftime_def pad2_def pad4_def
      is_digit_digit ustr_def)

text \<open>
  C8. A line that has been read is examined (line 79). With the stop flag set then,
  the buffer stays as it is and the loop is left: \<^verbatim>\<open>terminate\<close> is called on the child
  and the worker goes on to wait for it (or, if the call raises, to the \<^verbatim>\<open>except\<close>
  clause). With the flag not set, a line that is not blank after stripping is appended
  as the capture time in the form \<^verbatim>\<open>YYYY-MM-DD HH:MM:SS\<close>, then \<^verbatim>\<open> - \<close>, then the
  stripped line, and the buffer is cut to its last 1000 entries; a blank line leaves the
  buffer unchanged. In both cases the loop reads on. A line is blank when it holds
  nothing but whitespace, and the stripped line is the line without the whitespace at
  its two ends.
\<close>

theorem line_handling:
  "(mission_thread s = Some (At W_readline) \<and> raises e = None \<and> line e \<noteq> [] \<longrightarrow>
      exec [Worker e] s = s\<lparr>mission_thread := Some (At (W_check_stop (line e)))\<rparr>)
   \<and> (mission_thread s = Some (At (W_check_stop l)) \<and> stop_mission_flag s \<longrightarrow>
        logs (exec [Worker e1, Worker e2] s) = logs s
        \<and> (mission_thread (exec [Worker e1, Worker e2] s) = Some (At W_wait)
            \<or> mission_thread (exec [Worker e1, Worker e2] s) = Some (At W_except))
        \<and> (\<forall>p. current_process s = Some p \<and> raises e2 = None \<longrightarrow>
              exec [Worker e1, Worker e2] s
                = s\<lparr>mission_thread := Some (At W_wait),
                    effects := effects s @ [Terminate p]\<rparr>))
   \<and> (mission_thread s = Some (At (W_check_stop l)) \<and> \<not> stop_mission_flag s
        \<and> strip l \<noteq> [] \<longrightarrow>
        logs (exec [Worker e1, Worker e2, Worker e3] s)
          = trim_logs (logs s @ [log_entry (now e2) l])
        \<and> mission_thread (exec [Worker e1, Worker e2, Worker e3] s) = Some (At W_readline)
        \<and> \<not> stop_mission_flag (exec [Worker e1, Worker e2, Worker e3] s)
        \<and> current_process (exec [Worker e1, Worker e2, Worker e3] s) = current_process s
        \<and> is_running (exec [Worker e1, Worker e2, Worker e3] s) = is_running s
        \<and> handler (exec [Worker e1, Worker e2, Worker e3] s) = handler s
        \<and> effects (exec [Worker e1, Worker e2, Worker e3] s) = effects s
        \<and> (length (logs s) < 1000 \<longrightarrow>
             exec [Worker e1, Worker e2, Worker e3] s
               = s\<lparr>mission_thread := Some (At W_readline),
                   heap := (heap s)(logs_ref s := logs s @ [log_entry (now e2) l])\<rparr>)
        \<and> log_entry (now e2) l = strftime (now e2) @ ustr '' - '' @ strip l
        \<and> is_timestamp (strftime (now e2)))
   \<and> (mission_thread s = Some (At (W_check_stop l)) \<and> \<not> stop_mission_flag s
        \<and> strip l = [] \<longrightarrow>
        exec [Worker e1, Worker e2] s = s\<lparr>mission_thread := Some (At W_readline)\<rparr>)
   \<and> (strip l = [] \<longleftrightarrow> list_all is_space l)
   \<and> (\<exists>a b. l = a @ strip l @ b \<and> list_all is_space a \<and> list_all is_space b)
   \<and> (strip l \<noteq> [] \<longrightarrow> \<not> is_space (hd (strip l)) \<and> \<not> is_space (last (strip l)))"
proof -
  have 1: "mission_thread s = Some (At W_readline) \<and> raises e = None \<and> line e \<noteq> [] \<longrightarrow>
      exec [Worker e] s = s\<lparr>mission_thread := Some (At (W_check_stop (line e)))\<rparr>"
    by (simp add: exec_Cons exec_Nil worker_step_def goto_def)
  have 2: "mission_thread s = Some (At (W_check_stop l)) \<and> stop_mission_flag s \<longrightarrow>
        logs (exec [Worker e1, Worker e2] s) = logs s
        \<and> (mission_thread (exec [Worker e1, Worker e2] s) = Some (At W_wait)
            \<or> mission_thread (exec [Worker e1, Worker e2] s) = Some (At W_except))
        \<and> (\<forall>p. current_process s = Some p \<and> raises e2 = None \<longrightarrow>
              exec [Worker e1, Worker e2] s
                = s\<lparr>mission_thread := Some (At W_wait),
                    effects := effects s @ [Terminate p]\<rparr>)"
    by (cases s)
      (auto simp: exec_Cons exec_Nil worker_step_def goto_def logs_def split: option.splits)
  have 3: "exec [Worker e1, Worker e2, Worker e3] s = exec [Worker e2, Worker e3] t
           \<and> mission_thread t = Some (At (W_append l)) \<and> logs t = logs s
           \<and> stop_mission_flag t = stop_mission_flag s \<and> current_process t = current_process s
           \<and> is_running t = is_running s \<and> handler t = handler s \<and> effects t = effects s
           \<and> heap t = heap s \<and> logs_ref t = logs_ref s
           \<and> t\<lparr>mission_thread := Some (At W_readline)\<rparr> = s\<lparr>mission_thread := Some (At W_readline)\<rparr>"
    if "mission_thread s = Some (At (W_check_stop l))" "\<not> stop_mission_flag s"
      and t: "t = s\<lparr>mission_thread := Some (At (W_append l))\<rparr>" for t
    using that by (simp add: exec_Cons exec_Nil worker_step_def goto_def logs_def)
  have 4: "mission_thread s = Some (At (W_check_stop l)) \<and> \<not> stop_mission_flag s
        \<and> strip l \<noteq> [] \<longrightarrow>
        logs (exec [Worker e1, Worker e2, Worker e3] s)
          = trim_logs (logs s @ [log_entry (now e2) l])
        \<and> mission_thread (exec [Worker e1, Worker e2, Worker e3] s) = Some (At W_readline)
        \<and> \<not> stop_mission_flag (exec [Worker e1, Worker e2, Worker e3] s)
        \<and> current_process (exec [Worker e1, Worker e2, Worker e3] s) = current_process s
        \<and> is_running (exec [Worker e1, Worker e2, Worker e3] s) = is_running s
        \<and> handler (exec [Worker e1, Worker e2, Worker e3] s) = handler s
        \<and> effects (exec [Worker e1, Worker e2, Worker e3] s) = effects s
        \<and> (length (logs s) < 1000 \<longrightarrow>
             exec [Worker e1, Worker e2, Worker e3] s
               = s\<lparr>mission_thread := Some (At W_readline),
                   heap := (heap s)(logs_ref s := logs s @ [log_entry (now e2) l])\<rparr>)"
  proof
    assume a: "mission_thread s = Some (At (W_check_stop l)) \<and> \<not> stop_mission_flag s
        \<and> strip l \<noteq> []"
    define t where "t = s\<lparr>mission_thread := Some (At (W_append l))\<rparr>"
    from 3[of t] a t_def have t: "exec [Worker e1, Worker e2, Worker e3] s = exec [Worker e2, Worker e3] t"
      "mission_thread t = Some (At (W_append l))" "logs t = logs s"
      "stop_mission_flag t = stop_mission_flag s" "current_process t = current_process s"
      "is_running t = is_running s" "handler t = handler s" "effects t = effects s"
      "heap t = heap s" "logs_ref t = logs_ref s"
      "t\<lparr>mission_thread := Some (At W_readline)\<rparr> = s\<lparr>mission_thread := Some (At W_readline)\<rparr>"
      by blast+
    have u: "t\<lparr>mission_thread := Some (At W_readline),
               heap := (heap s)(logs_ref s := logs s @ [log_entry (now e2) l])\<rparr>
           = s\<lparr>mission_thread := Some (At W_readline),
               heap := (heap s)(logs_ref s := logs s @ [log_entry (now e2) l])\<rparr>"
      by (simp add: t_def)
    from a append_then_trim[OF t(2), of e2 e3] t(1,3-10) u a
    show "logs (exec [Worker e1, Worker e2, Worker e3] s)
          = trim_logs (logs s @ [log_entry (now e2) l])
        \<and> mission_thread (exec [Worker e1, Worker e2, Worker e3] s) = Some (At W_readline)
        \<and> \<not> stop_mission_flag (exec [Worker e1, Worker e2, Worker e3] s)
        \<and> current_process (exec [Worker e1, Worker e2, Worker e3] s) = current_process s
        \<and> is_running (exec [Worker e1, Worker e2, Worker e3] s) = is_running s
        \<and> handler (exec [Worker e1, Worker e2, Worker e3] s) = handler s
        \<and> effects (exec [Worker e1, Worker e2, Worker e3] s) = effects s
        \<and> (length (logs s) < 1000 \<longrightarrow>
             exec [Worker e1, Worker e2, Worker e3] s
               = s\<lparr>mission_thread := Some (At W_readline),
                   heap := (heap s)(logs_ref s := logs s @ [log_entry (now e2) l])\<rparr>)"
      by simp
  qed
  have 5: "mission_thread s = Some (At (W_check_stop l)) \<and> \<not> stop_mission_flag s
        \<and> strip l = [] \<longrightarrow>
        exec [Worker e1, Worker e2] s = s\<lparr>mission_thread := Some (At W_readline)\<rparr>"
    by (simp add: exec_Cons exec_Nil worker_step_def goto_def)
  have 6: "log_entry (now e2) l = strftime (now e2) @ ustr '' - '' @ strip l"
    by (simp add: log_entry_def)
  from 1 2 4 5 6 is_timestamp_strftime[of "now e2"] strip_blank[of l] strip_decomp[of l]
    strip_ends[of l]
  show ?thesis by blast
qed

theorem line_handling_witness:
  "mission_thread examining = Some (At (W_check_stop (ustr ''frame 1 captured'')))
   \<and> \<not> stop_mission_flag examining
   \<and> logs (exec [Worker env_ok, Worker env_ok, Worker env_ok] examining)
       = [ustr ''2024-05-17 12:00:09 - frame 1 captured'']
   \<and> logs (exec [Worker env_ok, Worker env_ok, Worker env_ok] examining_padded)
       = [ustr ''2024-05-17 12:00:09 - frame 1 captured'']
   \<and> is_space 0xA0 \<and> is_space 0x0A \<and> strip [0xA0, 0x0A] = []
   \<and> exec [Worker env_ok, Worker env_ok] examining_blank = reading
   \<and> logs reading = []
   \<and> stop_mission_flag stop_requested
   \<and> logs (exec [Worker env_ok, Worker env_ok] stop_requested) = []
   \<and> effects (exec [Worker env_ok, Worker env_ok] stop_requested)
       = [ThreadStart, Popen 4711, Terminate 4711]
   \<and> mission_thread (exec [Worker env_ok, Worker env_ok] stop_requested) = Some (At W_wait)"
proof -
  have a: "mission_thread examining = Some (At (W_check_stop (ustr ''frame 1 captured'')))"
    and b: "\<not> stop_mission_flag examining" and l: "logs examining = []"
    by (simp_all add: examining_state reading_state logs_def)
  have c: "strip (ustr ''frame 1 captured'') \<noteq> []" by (simp add: strip_frame1 frame1_not_Nil)
  have n: "now env_ok = noon" and r: "raises env_ok = None" by (simp_all add: env_ok_def)
  have entry: "strftime noon @ ustr '' - '' @ ustr ''frame 1 captured''
      = ustr ''2024-05-17 12:00:09 - frame 1 captured''"
    by (simp add: strftime_noon ustr_def)
  from line_handling[where s = examining and l = "ustr ''frame 1 captured''" and ?e1.0 = env_ok
      and ?e2.0 = env_ok and ?e3.0 = env_ok] a b c
  have "logs (exec [Worker env_ok, Worker env_ok, Worker env_ok] examining)
          = trim_logs (logs examining @ [log_entry (now env_ok) (ustr ''frame 1 captured'')])"
    by blast
  then have 1: "logs (exec [Worker env_ok, Worker env_ok, Worker env_ok] examining)
       = [ustr ''2024-05-17 12:00:09 - frame 1 captured'']"
    by (simp add: l n trim_logs_def log_entry_def strip_frame1 entry)
  have ap: "mission_thread examining_padded
      = Some (At (W_check_stop ([0x20, 0xA0] @ ustr ''frame 1 captured'' @ [0x0A])))"
    and bp: "\<not> stop_mission_flag examining_padded" and lp: "logs examining_padded = []"
    by (simp_all add: examining_padded_state reading_state logs_def)
  have cp: "strip ([0x20, 0xA0] @ ustr ''frame 1 captured'' @ [0x0A]) \<noteq> []"
    by (simp only: strip_padded) (simp add: frame1_not_Nil)
  from line_handling[where s = examining_padded
      and l = "[0x20, 0xA0] @ ustr ''frame 1 captured'' @ [0x0A]" and ?e1.0 = env_ok
      and ?e2.0 = env_ok and ?e3.0 = env_ok] ap bp cp
  have "logs (exec [Worker env_ok, Worker env_ok, Worker env_ok] examining_padded)
          = trim_logs (logs examining_padded
              @ [log_entry (now env_ok) ([0x20, 0xA0] @ ustr ''frame 1 captured'' @ [0x0A])])"
    by blast
  then have x1: "logs (exec [Worker env_ok, Worker env_ok, Worker env_ok] examining_padded)
       = [ustr ''2024-05-17 12:00:09 - frame 1 captured'']"
    by (simp only: lp n log_entry_def strip_padded entry) (simp add: trim_logs_def)
  have ab: "mission_thread examining_blank = Some (At (W_check_stop [0xA0, 0x0A]))"
    and bb: "\<not> stop_mission_flag examining_blank"
    by (simp_all add: examining_blank_state reading_state)
  have sp: "is_space 0xA0" "is_space 0x0A" by (simp_all add: is_space_def)
  from line_handling[where s = examining_blank and l = "[0xA0, 0x0A]" and ?e1.0 = env_ok
      and ?e2.0 = env_ok] ab bb strip_nbsp
  have "exec [Worker env_ok, Worker env_ok] examining_blank
      = examining_blank\<lparr>mission_thread := Some (At W_readline)\<rparr>"
    by blast
  then have x2: "exec [Worker env_ok, Worker env_ok] examining_blank = reading"
    by (simp add: examining_blank_state reading_state)
  have lr: "logs reading = []" by (simp add: reading_state logs_def)
  have a': "mission_thread stop_requested = Some (At (W_check_stop (ustr ''frame 1 captured'')))"
    and b': "stop_mission_flag stop_requested" and l': "logs stop_requested = []"
    and p: "current_process stop_requested = Some 4711"
    and f: "effects stop_requested = [ThreadStart, Popen 4711]"
    by (simp_all add: stop_requested_state examining_state reading_state logs_def)
  from line_handling[where s = stop_requested and l = "ustr ''frame 1 captured''"
      and ?e1.0 = env_ok and ?e2.0 = env_ok] a' b' p r
  have 2: "logs (exec [Worker env_ok, Worker env_ok] stop_requested) = logs stop_requested"
    and 3: "exec [Worker env_ok, Worker env_ok] stop_requested
                = stop_requested\<lparr>mission_thread := Some (At W_wait),
                    effects := effects stop_requested @ [Terminate 4711]\<rparr>"
    by blast+
  from 3 f have 4: "effects (exec [Worker env_ok, Worker env_ok] stop_requested)
       = [ThreadStart, Popen 4711, Terminate 4711]"
    and 5: "mission_thread (exec [Worker env_ok, Worker env_ok] stop_requested) = Some (At W_wait)"
    by simp_all
  from 2 l' have 6: "logs (exec [Worker env_ok, Worker env_ok] stop_requested) = []" by simp
  show ?thesis using a b 1 x1 sp strip_nbsp x2 lr b' 6 4 5 by blast
qed

section \<open>Stopping a running mission\<close>















end
